theory Spec2Isabelle
  imports Complex_Main
begin

section \<open>Numbers and faults\<close>

text \<open>
  The calculator of \<^verbatim>\<open>app.py\<close> works on Python numbers. They are modelled as
  exact reals: a literal such as \<^verbatim>\<open>0.3\<close> stands for the rational 3/10. The two
  functions of the formula library are given a second time with the rounding of the
  machine floats, in a section of their own. What Python
  raises is a value: \<^verbatim>\<open>ZeroDivisionError\<close> for \<^verbatim>\<open>/\<close> by zero and for a zero base
  under a negative exponent, and \<open>InvalidInput\<close> for the validation of the priced
  branch (\<^verbatim>\<open>st.error\<close> followed by \<^verbatim>\<open>st.stop()\<close>).
\<close>

datatype error = InvalidInput | ZeroDivisionError

definition py_div :: "real \<Rightarrow> real \<Rightarrow> error + real" where
  "py_div a b = (if b = 0 then Inl ZeroDivisionError else Inr (a / b))"

definition py_pow :: "real \<Rightarrow> int \<Rightarrow> error + real" where
  "py_pow b e = (if b = 0 \<and> e < 0 then Inl ZeroDivisionError else Inr (b powi e))"


section \<open>Utility functions\<close>

definition clamp :: "real \<Rightarrow> real \<Rightarrow> real \<Rightarrow> real" where
  "clamp val min_val max_val = max min_val (min val max_val)"

definition safe_divide :: "real \<Rightarrow> real \<Rightarrow> real" where
  "safe_divide numerator denominator =
     (if denominator \<noteq> 0 then numerator / denominator else 0)"

definition pmt :: "real \<Rightarrow> int \<Rightarrow> real \<Rightarrow> error + real" where
  "pmt rate nper pv =
     (if rate = 0 then py_div pv (of_int nper)
      else case py_pow (1 + rate) (- nper) of
             Inl e \<Rightarrow> Inl e
           | Inr q \<Rightarrow> py_div (rate * pv) (1 - q))"

definition invert_pmt :: "real \<Rightarrow> real \<Rightarrow> int \<Rightarrow> error + real" where
  "invert_pmt payment rate nper =
     (if rate = 0 then Inr (payment * of_int nper)
      else case py_pow (1 + rate) (- nper) of
             Inl e \<Rightarrow> Inl e
           | Inr q \<Rightarrow> Inr (payment * (1 - q) / rate))"

section \<open>The formula library in floating point\<close>

text \<open>
  Python's floats are IEEE doubles: every arithmetic operation returns the exact result
  rounded to the nearest number with a significand of 53 bits, a tie going to the even
  significand. \<open>fl\<close> is that rounding. The exponent is not bounded here, so overflow,
  underflow to subnormal numbers and NaN are left out. \<open>float_pow\<close> rounds the exact
  power; the \<^verbatim>\<open>pow\<close> of the C library may differ from it in the last bit, but returns 1.0
  for the base 1.0 as it does.
\<close>

definition round_half_even :: "real \<Rightarrow> int" where
  "round_half_even y =
     (let f = \<lfloor>y\<rfloor>; r = y - of_int f
      in if r < 1 / 2 then f
         else if 1 / 2 < r then f + 1
         else if even f then f else f + 1)"

definition fl :: "real \<Rightarrow> real" where
  "fl x =
     (if x = 0 then 0
      else let e = \<lfloor>log 2 \<bar>x\<bar>\<rfloor> - 52
           in of_int (round_half_even (x / 2 powi e)) * 2 powi e)"

definition float_div :: "real \<Rightarrow> real \<Rightarrow> error + real" where
  "float_div a b = (if b = 0 then Inl ZeroDivisionError else Inr (fl (a / b)))"

definition float_pow :: "real \<Rightarrow> int \<Rightarrow> error + real" where
  "float_pow b e = (if b = 0 \<and> e < 0 then Inl ZeroDivisionError else Inr (fl (b powi e)))"

definition pmt_float :: "real \<Rightarrow> int \<Rightarrow> real \<Rightarrow> error + real" where
  "pmt_float rate nper pv =
     (if rate = 0 then float_div pv (of_int nper)
      else case float_pow (fl (1 + rate)) (- nper) of
             Inl e \<Rightarrow> Inl e
           | Inr q \<Rightarrow> float_div (fl (rate * pv)) (fl (1 - q)))"

definition invert_pmt_float :: "real \<Rightarrow> real \<Rightarrow> int \<Rightarrow> error + real" where
  "invert_pmt_float payment rate nper =
     (if rate = 0 then Inr (fl (payment * of_int nper))
      else case float_pow (fl (1 + rate)) (- nper) of
             Inl e \<Rightarrow> Inl e
           | Inr q \<Rightarrow> Inr (fl (fl (payment * fl (1 - q)) / rate)))"

section \<open>Amortization engine\<close>






section \<open>Risk model\<close>

text \<open>The dictionary literal of \<^verbatim>\<open>calculate_risk_score\<close>, in its source order.\<close>

definition credit_risks :: "(string \<times> real) list" where
  "credit_risks =
     [(''760+'', 0.1), (''720-759'', 0.3), (''680-719'', 0.5),
      (''640-679'', 0.7), (''Under 640'', 1.0)]"

text \<open>\<^verbatim>\<open>d.get(k, default)\<close>\<close>

definition dict_get :: "('k \<times> 'v) list \<Rightarrow> 'k \<Rightarrow> 'v \<Rightarrow> 'v" where
  "dict_get d k dflt = (case map_of d k of None \<Rightarrow> dflt | Some v \<Rightarrow> v)"

definition calculate_risk_score :: "real \<Rightarrow> real \<Rightarrow> string \<Rightarrow> real" where
  "calculate_risk_score back_end_dti ltv credit_score_band =
     (let dti_risk = min (back_end_dti / 0.5) 1.0;
          ltv_risk = min (ltv / 1.0) 1.0;
          credit_risk = dict_get credit_risks credit_score_band 0.5;
          risk_score = (dti_risk * 0.5 + ltv_risk * 0.3 + credit_risk * 0.2) * 100
      in min 100 (max 0 risk_score))"

text \<open>
  The score as the specification words it: a credit weight read from the fixed table,
  one half for any other band, and the weighted sum clamped to the interval from 0 to 100.
\<close>

definition credit_risk_spec :: "string \<Rightarrow> real" where
  "credit_risk_spec band =
     (if band = ''760+'' then 0.1
      else if band = ''720-759'' then 0.3
      else if band = ''680-719'' then 0.5
      else if band = ''640-679'' then 0.7
      else if band = ''Under 640'' then 1.0
      else 0.5)"

definition risk_score_spec :: "real \<Rightarrow> real \<Rightarrow> string \<Rightarrow> real" where
  "risk_score_spec dti ltv band =
     clamp (100 * (0.5 * min (dti / 0.5) 1 + 0.3 * min ltv 1 + 0.2 * credit_risk_spec band))
       0 100"

section \<open>Inputs and results of the core calculations\<close>

text \<open>
  The values of the sidebar widgets that the core calculations read. The two DTI limits
  are the widget values already divided by 100, as the script stores them;
  \<open>home_price\<close> is \<open>None\<close> when the mode is not \<^verbatim>\<open>Set Home Price\<close>.
\<close>

record inputs =
  annual_income :: real
  existing_debt :: real
  credit_score :: string
  price_mode :: string
  home_price :: "real option"
  down_payment_amount :: real
  down_payment_percent :: real
  interest_rate :: real
  loan_term :: int
  property_tax_rate :: real
  home_insurance :: real
  hoa_fees :: real
  pmi_rate :: real
  max_front_dti :: real
  max_back_dti :: real

text \<open>
  The bounds that the \<^verbatim>\<open>number_input\<close>, \<^verbatim>\<open>selectbox\<close> and \<^verbatim>\<open>radio\<close> widgets put on
  these values (\<^verbatim>\<open>min_value\<close>, \<^verbatim>\<open>max_value\<close> and the option lists).
\<close>

definition widget_bounds :: "inputs \<Rightarrow> bool" where
  "widget_bounds inp \<longleftrightarrow>
     1000 \<le> annual_income inp
     \<and> 0 \<le> existing_debt inp
     \<and> credit_score inp \<in> set [''760+'', ''720-759'', ''680-719'', ''640-679'', ''Under 640'']
     \<and> (case home_price inp of
          None \<Rightarrow> price_mode inp = ''Find Max Affordability''
        | Some p \<Rightarrow> price_mode inp = ''Set Home Price'' \<and> 1000 \<le> p)
     \<and> 0 \<le> down_payment_amount inp
     \<and> 0 \<le> down_payment_percent inp \<and> down_payment_percent inp \<le> 100
     \<and> 0.1 \<le> interest_rate inp \<and> interest_rate inp \<le> 20
     \<and> loan_term inp \<in> set [15, 20, 30]
     \<and> 0 \<le> property_tax_rate inp \<and> property_tax_rate inp \<le> 5
     \<and> 0 \<le> home_insurance inp
     \<and> 0 \<le> hoa_fees inp
     \<and> 0 \<le> pmi_rate inp \<and> pmi_rate inp \<le> 2
     \<and> 0.1 \<le> max_front_dti inp \<and> max_front_dti inp \<le> 0.5
     \<and> 0.1 \<le> max_back_dti inp \<and> max_back_dti inp \<le> 0.6"

text \<open>
  The variables that the core calculations leave behind for the rest of the script.
  \<open>final_home_price\<close> is the variable \<^verbatim>\<open>home_price\<close> after the branch.
\<close>

record calc =
  final_home_price :: real
  max_affordable_price :: real
  loan_amount :: real
  monthly_pi :: real
  monthly_tax :: real
  monthly_insurance :: real
  monthly_hoa :: real
  monthly_pmi :: real
  total_monthly_payment :: real
  front_end_dti :: real
  back_end_dti :: real
  ltv :: real

section \<open>Priced mode\<close>

definition priced_mode :: "inputs \<Rightarrow> real \<Rightarrow> error + calc" where
  "priced_mode inp price =
     (let monthly_income = annual_income inp / 12;
          loan = price - down_payment_amount inp
      in if down_payment_amount inp \<ge> price then Inl InvalidInput
         else
           let monthly_rate = interest_rate inp / 100 / 12;
               total_months = loan_term inp * 12
           in case pmt monthly_rate total_months loan of
                Inl e \<Rightarrow> Inl e
              | Inr p_and_i \<Rightarrow>
                  let tax = price * property_tax_rate inp / 100 / 12;
                      insurance = home_insurance inp / 12;
                      hoa = hoa_fees inp;
                      pmi = (if down_payment_percent inp < 20
                             then loan * pmi_rate inp / 100 / 12 else 0);
                      total_payment = p_and_i + tax + insurance + hoa + pmi
                  in case py_div total_payment monthly_income of
                       Inl e \<Rightarrow> Inl e
                     | Inr front \<Rightarrow>
                         (case py_div (total_payment + existing_debt inp) monthly_income of
                            Inl e \<Rightarrow> Inl e
                          | Inr back \<Rightarrow>
                              (case py_div loan price of
                                 Inl e \<Rightarrow> Inl e
                               | Inr loan_to_value \<Rightarrow>
                                   Inr \<lparr>final_home_price = price,
                                        max_affordable_price = price,
                                        loan_amount = loan,
                                        monthly_pi = p_and_i,
                                        monthly_tax = tax,
                                        monthly_insurance = insurance,
                                        monthly_hoa = hoa,
                                        monthly_pmi = pmi,
                                        total_monthly_payment = total_payment,
                                        front_end_dti = front,
                                        back_end_dti = back,
                                        ltv = loan_to_value\<rparr>)))"

section \<open>Max-affordability mode\<close>

definition max_payment_constraint :: "inputs \<Rightarrow> real" where
  "max_payment_constraint inp =
     (let monthly_income = annual_income inp / 12;
          max_payment_front = monthly_income * max_front_dti inp;
          max_payment_back = monthly_income * max_back_dti inp - existing_debt inp
      in min max_payment_front max_payment_back)"

text \<open>
  The state of the price loop. Only \<open>estimated_price\<close> is a variable of the script;
  \<open>iterations\<close> counts the loop bodies begun and \<open>within_tolerance\<close> records that the
  loop was left through \<^verbatim>\<open>break\<close>, so that statements about them can be made.
\<close>

record solver_state =
  estimated_price :: real
  iterations :: nat
  within_tolerance :: bool

definition tick :: "error + solver_state \<Rightarrow> error + solver_state" where
  "tick res = (case res of
                 Inl e \<Rightarrow> Inl e
               | Inr st \<Rightarrow> Inr (st\<lparr>iterations := Suc (iterations st)\<rparr>))"

text \<open>
  \<^verbatim>\<open>for _ in range(10)\<close>: the third argument is the number of loop bodies still
  allowed, the fourth the current \<^verbatim>\<open>estimated_price\<close>.
\<close>

fun price_iteration :: "inputs \<Rightarrow> real \<Rightarrow> nat \<Rightarrow> real \<Rightarrow> error + solver_state" where
  "price_iteration inp target 0 price =
     Inr \<lparr>estimated_price = price, iterations = 0, within_tolerance = False\<rparr>"
| "price_iteration inp target (Suc remaining) price =
     (let estimated_loan = price - down_payment_amount inp;
          monthly_rate = interest_rate inp / 100 / 12;
          total_months = loan_term inp * 12
      in if estimated_loan \<le> 0
         then tick (price_iteration inp target remaining (down_payment_amount inp * 2))
         else
           case pmt monthly_rate total_months estimated_loan of
             Inl e \<Rightarrow> Inl e
           | Inr p_and_i \<Rightarrow>
               let tax = price * property_tax_rate inp / 100 / 12;
                   insurance = home_insurance inp / 12;
                   hoa = hoa_fees inp
               in case py_div (down_payment_amount inp) price of
                    Inl e \<Rightarrow> Inl e
                  | Inr dp_share \<Rightarrow>
                      let pmi = (if dp_share < 0.20
                                 then estimated_loan * pmi_rate inp / 100 / 12 else 0);
                          estimated_total = p_and_i + tax + insurance + hoa + pmi
                      in if \<bar>estimated_total - target\<bar> < 10
                         then Inr \<lparr>estimated_price = price, iterations = 1,
                                   within_tolerance = True\<rparr>
                         else
                           case py_div target estimated_total of
                             Inl e \<Rightarrow> Inl e
                           | Inr ratio \<Rightarrow>
                               tick (price_iteration inp target remaining (price * ratio)))"

definition max_affordability_mode :: "inputs \<Rightarrow> error + calc" where
  "max_affordability_mode inp =
     (let monthly_income = annual_income inp / 12
      in case price_iteration inp (max_payment_constraint inp) 10 400000 of
           Inl e \<Rightarrow> Inl e
         | Inr st \<Rightarrow>
             let monthly_rate = interest_rate inp / 100 / 12;
                 total_months = loan_term inp * 12;
                 price = max (estimated_price st) (down_payment_amount inp + 1000);
                 loan = price - down_payment_amount inp
             in case pmt monthly_rate total_months loan of
                  Inl e \<Rightarrow> Inl e
                | Inr p_and_i \<Rightarrow>
                    let tax = price * property_tax_rate inp / 100 / 12;
                        insurance = home_insurance inp / 12;
                        hoa = hoa_fees inp
                    in case py_div (down_payment_amount inp) price of
                         Inl e \<Rightarrow> Inl e
                       | Inr dp_share \<Rightarrow>
                           let pmi = (if dp_share < 0.20
                                      then loan * pmi_rate inp / 100 / 12 else 0);
                               total_payment = p_and_i + tax + insurance + hoa + pmi
                           in case py_div total_payment monthly_income of
                                Inl e \<Rightarrow> Inl e
                              | Inr front \<Rightarrow>
                                  (case py_div (total_payment + existing_debt inp) monthly_income of
                                     Inl e \<Rightarrow> Inl e
                                   | Inr back \<Rightarrow>
                                       (case py_div loan price of
                                          Inl e \<Rightarrow> Inl e
                                        | Inr loan_to_value \<Rightarrow>
                                            Inr \<lparr>final_home_price = price,
                                                 max_affordable_price = price,
                                                 loan_amount = loan,
                                                 monthly_pi = p_and_i,
                                                 monthly_tax = tax,
                                                 monthly_insurance = insurance,
                                                 monthly_hoa = hoa,
                                                 monthly_pmi = pmi,
                                                 total_monthly_payment = total_payment,
                                                 front_end_dti = front,
                                                 back_end_dti = back,
                                                 ltv = loan_to_value\<rparr>)))"

text \<open>
  The branch of the script: \<^verbatim>\<open>if price_mode == "Set Home Price" and home_price\<close>, where
  a price is true when it is neither \<^verbatim>\<open>None\<close> nor zero.
\<close>

definition core_calculations :: "inputs \<Rightarrow> error + calc" where
  "core_calculations inp =
     (case home_price inp of
        None \<Rightarrow> max_affordability_mode inp
      | Some price \<Rightarrow>
          if price_mode inp = ''Set Home Price'' \<and> price \<noteq> 0
          then priced_mode inp price
          else max_affordability_mode inp)"

section \<open>Closed forms used in the proofs\<close>

text \<open>
  The payment formula of \<open>pmt\<close> at a positive rate, and the total monthly payment that
  the loop body and the final recomputation of the max-affordability branch both
  evaluate at a price: principal and interest on the loan, tax, insurance, HOA fees
  and PMI when the down payment is under a fifth of the price.
\<close>

definition level_payment :: "real \<Rightarrow> int \<Rightarrow> real \<Rightarrow> real" where
  "level_payment r n pv = r * pv / (1 - (1 + r) powi (- n))"

definition payment_at :: "inputs \<Rightarrow> real \<Rightarrow> real" where
  "payment_at inp price =
     level_payment (interest_rate inp / 100 / 12) (loan_term inp * 12)
       (price - down_payment_amount inp)
     + price * property_tax_rate inp / 100 / 12
     + home_insurance inp / 12
     + hoa_fees inp
     + (if down_payment_amount inp / price < 0.20
        then (price - down_payment_amount inp) * pmi_rate inp / 100 / 12 else 0)"

text \<open>The part of the widget bounds that keeps the price loop free of faults.\<close>

definition costs_ok :: "inputs \<Rightarrow> bool" where
  "costs_ok inp \<longleftrightarrow>
     0 \<le> down_payment_amount inp \<and> 0 < interest_rate inp \<and> 0 < loan_term inp
     \<and> 0 \<le> property_tax_rate inp \<and> 0 \<le> home_insurance inp
     \<and> 0 \<le> hoa_fees inp \<and> 0 \<le> pmi_rate inp"

section \<open>Scenario history\<close>

text \<open>
  One saved scenario: the dictionary that the \<^verbatim>\<open>Save Scenario\<close> handler builds. Its
  last three entries are \<^verbatim>\<open>None\<close> until the script fills them in.
\<close>

record scenario =
  sc_timestamp :: string
  sc_annual_income :: real
  sc_home_price :: "real option"
  sc_down_payment_amount :: real
  sc_interest_rate :: real
  sc_loan_term :: int
  sc_monthly_payment :: "real option"
  sc_back_end_dti :: "real option"
  sc_ltv :: "real option"

definition new_scenario :: "string \<Rightarrow> inputs \<Rightarrow> scenario" where
  "new_scenario now inp =
     \<lparr>sc_timestamp = now,
      sc_annual_income = annual_income inp,
      sc_home_price = home_price inp,
      sc_down_payment_amount = down_payment_amount inp,
      sc_interest_rate = interest_rate inp,
      sc_loan_term = loan_term inp,
      sc_monthly_payment = None,
      sc_back_end_dti = None,
      sc_ltv = None\<rparr>"

text \<open>The handler: append, then \<^verbatim>\<open>pop(0)\<close> when more than two are held.\<close>

definition save_scenario :: "string \<Rightarrow> inputs \<Rightarrow> scenario list \<Rightarrow> scenario list" where
  "save_scenario now inp scenarios =
     (let appended = scenarios @ [new_scenario now inp]
      in if length appended > 2 then tl appended else appended)"

text \<open>
  \<^verbatim>\<open>if st.session_state.scenarios: st.session_state.scenarios[-1].update(...)\<close>, the
  statement that follows the risk assessment on every run of the script.
\<close>

definition update_scenario :: "calc \<Rightarrow> scenario list \<Rightarrow> scenario list" where
  "update_scenario c scenarios =
     (if scenarios \<noteq> []
      then butlast scenarios @
             [(last scenarios)\<lparr>sc_monthly_payment := Some (total_monthly_payment c),
                               sc_back_end_dti := Some (back_end_dti c),
                               sc_ltv := Some (ltv c)\<rparr>]
      else scenarios)"

text \<open>
  One run of the script on the session's scenario list: the save handler when its
  button was pressed, the core calculations, and the update of the last scenario. A run
  that the core calculations stop (\<^verbatim>\<open>st.stop()\<close> or a fault) does not reach the update.
  \<open>now\<close> is the clock reading that a save would store. A run on which another
  button was pressed ends in \<^verbatim>\<open>st.rerun()\<close> before the core calculations, with the
  list untouched, and is followed by a run on which no button is pressed.
\<close>

definition script_run :: "bool \<Rightarrow> string \<Rightarrow> inputs \<Rightarrow> scenario list \<Rightarrow> scenario list" where
  "script_run save_clicked now inp scenarios =
     (let held = (if save_clicked then save_scenario now inp scenarios else scenarios)
      in case core_calculations inp of
           Inl e \<Rightarrow> held
         | Inr c \<Rightarrow> update_scenario c held)"

fun run_all :: "scenario list \<Rightarrow> (bool \<times> string \<times> inputs) list \<Rightarrow> scenario list" where
  "run_all scenarios [] = scenarios"
| "run_all scenarios ((save_clicked, now, inp) # later) =
     run_all (script_run save_clicked now inp scenarios) later"

section \<open>Example inputs\<close>

text \<open>The default values of the widgets, and the variations the examples below use.\<close>

definition default_inputs :: inputs where
  "default_inputs =
     \<lparr>annual_income = 80000, existing_debt = 500, credit_score = ''720-759'',
      price_mode = ''Set Home Price'', home_price = Some 400000,
      down_payment_amount = 80000, down_payment_percent = 20.0,
      interest_rate = 6.5, loan_term = 30, property_tax_rate = 1.2,
      home_insurance = 1200, hoa_fees = 0, pmi_rate = 0.5,
      max_front_dti = 28.0 / 100, max_back_dti = 36.0 / 100\<rparr>"

definition default_max_inputs :: inputs where
  "default_max_inputs =
     default_inputs\<lparr>price_mode := ''Find Max Affordability'', home_price := None,
                     down_payment_amount := 60000\<rparr>"

definition high_hoa_inputs :: inputs where
  "high_hoa_inputs = default_max_inputs\<lparr>hoa_fees := 3000\<rparr>"

definition converging_inputs :: inputs where
  "converging_inputs =
     default_max_inputs\<lparr>annual_income := 175714, down_payment_amount := 100000,
                         interest_rate := 12, loan_term := 15\<rparr>"

definition pmi_charged_inputs :: inputs where
  "pmi_charged_inputs =
     default_inputs\<lparr>down_payment_amount := 100000, down_payment_percent := 10\<rparr>"

definition pmi_omitted_inputs :: inputs where
  "pmi_omitted_inputs = default_inputs\<lparr>down_payment_amount := 40000\<rparr>"

section \<open>Properties of the risk model\<close>

lemma credit_risk_lookup:
  "dict_get credit_risks band 0.5 = credit_risk_spec band"
  by (simp add: dict_get_def credit_risks_def credit_risk_spec_def)

lemma risk_score_range:
  "0 \<le> calculate_risk_score d l band \<and> calculate_risk_score d l band \<le> 100"
  by (simp add: calculate_risk_score_def Let_def)

text \<open>
  C4. For every back-end DTI, LTV and credit band the score of the code is the clamped
  weighted sum of the specification, with the credit weight of the fixed table and one
  half for an unrecognised band; the score lies between 0 and 100.
\<close>

theorem risk_score_formula:
  "calculate_risk_score d l band = risk_score_spec d l band
   \<and> 0 \<le> calculate_risk_score d l band
   \<and> calculate_risk_score d l band \<le> 100"
proof -
  have "calculate_risk_score d l band = risk_score_spec d l band"
    unfolding calculate_risk_score_def risk_score_spec_def clamp_def Let_def
      credit_risk_lookup
    by (simp add: algebra_simps min_def max_def)
  then show ?thesis
    using risk_score_range [of d l band] by simp
qed

theorem risk_score_formula_witness:
  "calculate_risk_score 1 1 ''unknown band'' = 90
   \<and> risk_score_spec 1 1 ''unknown band'' = 90"
  using risk_score_formula [of 1 1 "''unknown band''"]
  by (simp add: risk_score_spec_def credit_risk_spec_def clamp_def)

text \<open>
  C5. With the other two arguments fixed, the score does not decrease when the
  back-end DTI grows, and does not decrease when the LTV grows.
\<close>

theorem risk_score_monotone:
  "(d1 \<le> d2 \<longrightarrow> calculate_risk_score d1 l band \<le> calculate_risk_score d2 l band)
   \<and> (l1 \<le> l2 \<longrightarrow> calculate_risk_score d l1 band \<le> calculate_risk_score d l2 band)"
  by (auto simp add: calculate_risk_score_def Let_def min_def max_def)

theorem risk_score_monotone_witness:
  "calculate_risk_score 0.1 0.8 ''760+'' \<le> calculate_risk_score 0.4 0.8 ''760+''
   \<and> calculate_risk_score 0.3 0.5 ''760+'' \<le> calculate_risk_score 0.3 0.9 ''760+''"
  using risk_score_monotone [of "0.1" "0.4" "0.8" "''760+''" "0.5" "0.9" "0.3"]
  by simp

text \<open>
  C6. The smoke test of the source calls the score at DTI 0.36, LTV 0.8 and band
  720-759 and expects a value between 30 and 60. The function returns 66.
\<close>

theorem smoke_test_risk_score:
  "calculate_risk_score 0.36 0.8 ''720-759'' = 66
   \<and> \<not> (30 \<le> calculate_risk_score 0.36 0.8 ''720-759''
        \<and> calculate_risk_score 0.36 0.8 ''720-759'' \<le> 60)"
  by (simp add: calculate_risk_score_def Let_def dict_get_def credit_risks_def)

section \<open>Properties of the formula library and the amortization engine\<close>

lemma discount_lt_one:
  fixes r :: real
  assumes "0 < r" "0 < n"
  shows "(1 + r) powi (- n) < 1"
proof -
  have "1 < (1 + r) powi n"
    using assms by (intro one_less_power_int) auto
  then show ?thesis
    by (simp add: power_int_minus inverse_less_1_iff)
qed

lemma discount_pos:
  fixes r :: real
  assumes "0 \<le> r"
  shows "0 < (1 + r) powi n"
  using assms by (intro zero_less_power_int) auto

lemma pmt_zero_rate: "n \<noteq> 0 \<Longrightarrow> pmt 0 n pv = Inr (pv / of_int n)"
  by (simp add: pmt_def py_div_def)

lemma pmt_pos_rate:
  assumes "0 < r" "0 < n"
  shows "pmt r n pv = Inr (r * pv / (1 - (1 + r) powi (- n)))"
  using assms discount_lt_one [of r n]
  by (simp add: pmt_def py_pow_def py_div_def)

lemma invert_pmt_zero_rate: "invert_pmt m 0 n = Inr (m * of_int n)"
  by (simp add: invert_pmt_def)

lemma invert_pmt_pos_rate:
  assumes "0 < r"
  shows "invert_pmt m r n = Inr (m * (1 - (1 + r) powi (- n)) / r)"
  using assms by (simp add: invert_pmt_def py_pow_def)

lemma pmt_roundtrip:
  assumes "0 \<le> r" "1 \<le> n"
  shows "\<exists>m. pmt r n pv = Inr m \<and> invert_pmt m r n = Inr pv"
proof (cases "r = 0")
  case True
  with assms show ?thesis
    by (simp add: pmt_zero_rate invert_pmt_zero_rate)
next
  case False
  with assms have r: "0 < r" and n: "0 < n" by simp_all
  have "(1 + r) powi (- n) < 1" using r n by (rule discount_lt_one)
  then show ?thesis
    using r n by (simp add: pmt_pos_rate invert_pmt_pos_rate)
qed









section \<open>Properties of the rounding\<close>

lemma binade:
  fixes x :: real
  assumes "x \<noteq> 0"
  shows "2 powi \<lfloor>log 2 \<bar>x\<bar>\<rfloor> \<le> \<bar>x\<bar> \<and> \<bar>x\<bar> < 2 powi (\<lfloor>log 2 \<bar>x\<bar>\<rfloor> + 1)"
proof -
  have pos: "0 < \<bar>x\<bar>" using assms by simp
  have "(2::real) powr of_int \<lfloor>log 2 \<bar>x\<bar>\<rfloor> \<le> \<bar>x\<bar>
        \<and> \<bar>x\<bar> < 2 powr (of_int \<lfloor>log 2 \<bar>x\<bar>\<rfloor> + 1)"
    using floor_log_eq_powr_iff [of "\<bar>x\<bar>" 2 "\<lfloor>log 2 \<bar>x\<bar>\<rfloor>"] pos by simp
  moreover have "(2::real) powr of_int k = 2 powi k" for k
    by (intro powr_real_of_int') simp_all
  moreover have "of_int \<lfloor>log 2 \<bar>x\<bar>\<rfloor> + (1::real) = of_int (\<lfloor>log 2 \<bar>x\<bar>\<rfloor> + 1)" by simp
  ultimately show ?thesis by metis
qed

lemma binade_unique:
  fixes x :: real
  assumes "2 powi e \<le> \<bar>x\<bar>" "\<bar>x\<bar> < 2 powi (e + 1)"
  shows "\<lfloor>log 2 \<bar>x\<bar>\<rfloor> = e"
proof -
  have "0 < (2::real) powi e" by simp
  then have pos: "0 < \<bar>x\<bar>" using assms(1) by linarith
  have p: "(2::real) powr of_int k = 2 powi k" for k
    by (intro powr_real_of_int') simp_all
  have "(2::real) powr of_int e \<le> \<bar>x\<bar> \<and> \<bar>x\<bar> < 2 powr (of_int e + 1)"
    using assms p [of e] p [of "e + 1"] by simp
  then show ?thesis
    using floor_log_eq_powr_iff [of "\<bar>x\<bar>" 2 e] pos by simp
qed

lemma fl_in_binade:
  fixes x :: real
  assumes "2 powi e \<le> \<bar>x\<bar>" "\<bar>x\<bar> < 2 powi (e + 1)"
  shows "fl x = of_int (round_half_even (x / 2 powi (e - 52))) * 2 powi (e - 52)"
proof -
  have "0 < (2::real) powi e" by simp
  then have "0 < \<bar>x\<bar>" using assms(1) by linarith
  then have "x \<noteq> 0" by auto
  then show ?thesis
    unfolding fl_def Let_def binade_unique [OF assms] by simp
qed

lemma round_half_even_error:
  "\<bar>of_int (round_half_even y) - y\<bar> \<le> 1 / 2"
proof -
  have "of_int \<lfloor>y\<rfloor> \<le> y" "y < of_int \<lfloor>y\<rfloor> + 1" by linarith+
  then show ?thesis
    unfolding round_half_even_def Let_def by (auto simp add: abs_le_iff)
qed

lemma fl_error:
  "\<bar>fl x - x\<bar> \<le> \<bar>x\<bar> / 2 ^ 53"
proof (cases "x = 0")
  case True
  then show ?thesis by (simp add: fl_def)
next
  case False
  define k where "k = \<lfloor>log 2 \<bar>x\<bar>\<rfloor>"
  define s :: real where "s = 2 powi (k - 52)"
  have s0: "0 < s" by (simp add: s_def)
  have lo: "2 powi k \<le> \<bar>x\<bar>" using binade [OF False] by (simp add: k_def)
  have sk: "s * 2 ^ 52 = 2 powi k"
  proof -
    have "(2::real) powi (k - 52) * 2 powi 52 = 2 powi (k - 52 + 52)"
      by (subst power_int_add) simp_all
    then show ?thesis by (simp add: s_def)
  qed
  have flx: "fl x = of_int (round_half_even (x / s)) * s"
    using False by (simp add: fl_def Let_def k_def s_def)
  have "\<bar>fl x - x\<bar> = \<bar>of_int (round_half_even (x / s)) - x / s\<bar> * s"
  proof -
    have "fl x - x = (of_int (round_half_even (x / s)) - x / s) * s"
      using s0 by (simp add: flx field_simps)
    then show ?thesis using s0 by (simp add: abs_mult)
  qed
  also have "\<dots> \<le> 1 / 2 * s"
    using round_half_even_error [of "x / s"] s0 by (intro mult_right_mono) simp_all
  also have "\<dots> = 2 powi k / 2 ^ 53"
    using sk by (simp add: field_simps)
  also have "\<dots> \<le> \<bar>x\<bar> / 2 ^ 53"
    using lo by (intro divide_right_mono) simp_all
  finally show ?thesis .
qed

lemma fl_factor:
  "\<exists>f. fl x = x * f \<and> \<bar>f - 1\<bar> \<le> 1 / 2 ^ 53"
proof (cases "x = 0")
  case True
  then show ?thesis by (intro exI [of _ 1]) (simp add: fl_def)
next
  case False
  have "\<bar>fl x / x - 1\<bar> = \<bar>fl x - x\<bar> / \<bar>x\<bar>"
    using False by (simp add: field_simps flip: abs_divide)
  also have "\<dots> \<le> (\<bar>x\<bar> / 2 ^ 53) / \<bar>x\<bar>"
    using fl_error [of x] by (intro divide_right_mono) simp_all
  also have "\<dots> = 1 / 2 ^ 53" using False by simp
  finally have "\<bar>fl x / x - 1\<bar> \<le> 1 / 2 ^ 53" .
  moreover have "fl x = x * (fl x / x)" using False by simp
  ultimately show ?thesis by blast
qed

lemma fl_zero: "fl 0 = 0"
  by (simp add: fl_def)

lemma fl_one: "fl 1 = 1"
proof -
  have "fl 1 = of_int (round_half_even (1 / 2 powi (0 - 52))) * 2 powi (0 - 52)"
    by (intro fl_in_binade) simp_all
  then show ?thesis by (simp add: round_half_even_def)
qed

lemma product_near_one:
  fixes a b :: real
  assumes "\<bar>a - 1\<bar> \<le> s" "\<bar>b - 1\<bar> \<le> t" "s \<le> 1"
  shows "\<bar>a * b - 1\<bar> \<le> s + 2 * t"
proof -
  have "a * b - 1 = a * (b - 1) + (a - 1)" by (simp add: algebra_simps)
  then have "\<bar>a * b - 1\<bar> \<le> \<bar>a\<bar> * \<bar>b - 1\<bar> + \<bar>a - 1\<bar>"
    by (metis abs_mult abs_triangle_ineq)
  also have "\<bar>a\<bar> * \<bar>b - 1\<bar> \<le> 2 * t"
  proof -
    have "\<bar>a\<bar> \<le> 2" using assms(1,3) by (simp add: abs_le_iff)
    moreover have "0 \<le> t" using assms(2) by linarith
    ultimately show ?thesis
      using assms(2) by (intro mult_mono) simp_all
  qed
  finally show ?thesis using assms(1) by linarith
qed

lemma float_pow_one: "float_pow 1 e = Inr 1"
  by (simp add: float_pow_def fl_one)

lemma pmt_float_tiny_rate:
  assumes "rate \<noteq> 0" "fl (1 + rate) = 1"
  shows "pmt_float rate nper pv = Inl ZeroDivisionError"
  using assms by (simp add: pmt_float_def float_pow_one float_div_def fl_zero)

lemma fl_tiny_sum: "fl (1 + 2 powi (- 60)) = 1"
proof -
  have "fl (1 + 2 powi (- 60))
        = of_int (round_half_even ((1 + 2 powi (- 60)) / 2 powi (0 - 52))) * 2 powi (0 - 52)"
    by (intro fl_in_binade) simp_all
  then show ?thesis by (simp add: round_half_even_def)
qed

lemma fl_values:
  shows "fl 2 = 2" and "fl (1 / 4) = 1 / 4" and "fl (3 / 4) = 3 / 4"
    and "fl 300 = 300" and "fl 400 = 400"
proof -
  have "fl 2 = of_int (round_half_even (2 / 2 powi (1 - 52))) * 2 powi (1 - 52)"
    by (intro fl_in_binade) simp_all
  then show "fl 2 = 2" by (simp add: round_half_even_def)
  have "fl (1 / 4)
        = of_int (round_half_even (1 / 4 / 2 powi (- 2 - 52))) * 2 powi (- 2 - 52)"
    by (intro fl_in_binade) simp_all
  then show "fl (1 / 4) = 1 / 4" by (simp add: round_half_even_def)
  have "fl (3 / 4)
        = of_int (round_half_even (3 / 4 / 2 powi (- 1 - 52))) * 2 powi (- 1 - 52)"
    by (intro fl_in_binade) simp_all
  then show "fl (3 / 4) = 3 / 4" by (simp add: round_half_even_def)
  have "fl 300 = of_int (round_half_even (300 / 2 powi (8 - 52))) * 2 powi (8 - 52)"
    by (intro fl_in_binade) simp_all
  then show "fl 300 = 300" by (simp add: round_half_even_def)
  have "fl 400 = of_int (round_half_even (400 / 2 powi (8 - 52))) * 2 powi (8 - 52)"
    by (intro fl_in_binade) simp_all
  then show "fl 400 = 400" by (simp add: round_half_even_def)
qed

lemma float_example:
  "pmt_float 1 2 300 = Inr 400 \<and> invert_pmt_float 400 1 2 = Inr 300"
  by (simp add: pmt_float_def invert_pmt_float_def float_pow_def float_div_def fl_values)

lemma float_roundtrip:
  assumes rate: "0 \<le> rate" and nper: "1 \<le> nper" and pv: "0 < pv"
    and m: "pmt_float rate nper pv = Inr m"
  shows "\<exists>loan. invert_pmt_float m rate nper = Inr loan \<and> \<bar>loan - pv\<bar> \<le> pv / 10 ^ 6"
proof -
  have close: "\<bar>pv * f - pv\<bar> \<le> pv / 10 ^ 6" if "\<bar>f - 1\<bar> \<le> 7 / 2 ^ 53" for f
  proof -
    have "pv * f - pv = pv * (f - 1)" by (simp add: algebra_simps)
    then have "\<bar>pv * f - pv\<bar> = pv * \<bar>f - 1\<bar>" using pv by (simp add: abs_mult)
    also have "\<dots> \<le> pv * (7 / 2 ^ 53)"
      using that pv by (intro mult_left_mono) simp_all
    also have "\<dots> \<le> pv / 10 ^ 6" using pv by simp
    finally show ?thesis .
  qed
  show ?thesis
  proof (cases "rate = 0")
    case True
    have n0: "(of_int nper :: real) \<noteq> 0" using nper by simp
    have mv: "m = fl (pv / of_int nper)"
      using m True n0 by (simp add: pmt_float_def float_div_def)
    obtain f1 where f1: "fl (pv / of_int nper) = pv / of_int nper * f1"
      and e1: "\<bar>f1 - 1\<bar> \<le> 1 / 2 ^ 53"
      using fl_factor by blast
    have mn: "m * of_int nper = pv * f1"
      unfolding mv f1 using n0 by simp
    obtain f2 where f2: "fl (pv * f1) = pv * f1 * f2"
      and e2: "\<bar>f2 - 1\<bar> \<le> 1 / 2 ^ 53"
      using fl_factor by blast
    have res: "fl (m * of_int nper) = pv * (f1 * f2)"
      unfolding mn f2 by (simp add: mult.assoc)
    have "\<bar>f1 * f2 - 1\<bar> \<le> 1 / 2 ^ 53 + 2 * (1 / 2 ^ 53)"
      using e1 e2 by (intro product_near_one) simp_all
    then have "\<bar>f1 * f2 - 1\<bar> \<le> 7 / 2 ^ 53" by simp
    then have "\<bar>fl (m * of_int nper) - pv\<bar> \<le> pv / 10 ^ 6"
      unfolding res by (rule close)
    then show ?thesis
      using True by (simp add: invert_pmt_float_def)
  next
    case False
    then have r0: "rate \<noteq> 0" by simp
    obtain q where q: "float_pow (fl (1 + rate)) (- nper) = Inr q"
      and d0: "fl (1 - q) \<noteq> 0"
      and mv: "m = fl (fl (rate * pv) / fl (1 - q))"
      using m r0
      by (auto simp add: pmt_float_def float_div_def split: sum.splits if_splits)
    define d where "d = fl (1 - q)"
    have dnz: "d \<noteq> 0" using d0 by (simp add: d_def)
    obtain f1 where f1: "fl (rate * pv) = rate * pv * f1"
      and e1: "\<bar>f1 - 1\<bar> \<le> 1 / 2 ^ 53"
      using fl_factor by blast
    obtain f2 where f2: "fl (rate * pv * f1 / d) = rate * pv * f1 / d * f2"
      and e2: "\<bar>f2 - 1\<bar> \<le> 1 / 2 ^ 53"
      using fl_factor by blast
    have m2: "m = rate * pv * f1 / d * f2"
      unfolding mv d_def [symmetric] f1 by (rule f2)
    have md: "m * d = rate * pv * f1 * f2"
      unfolding m2 using dnz by simp
    obtain f3 where f3: "fl (rate * pv * f1 * f2) = rate * pv * f1 * f2 * f3"
      and e3: "\<bar>f3 - 1\<bar> \<le> 1 / 2 ^ 53"
      using fl_factor by blast
    have quot: "fl (m * d) / rate = pv * f1 * f2 * f3"
      unfolding md f3 using r0 by simp
    obtain f4 where f4: "fl (pv * f1 * f2 * f3) = pv * f1 * f2 * f3 * f4"
      and e4: "\<bar>f4 - 1\<bar> \<le> 1 / 2 ^ 53"
      using fl_factor by blast
    have res: "fl (fl (m * d) / rate) = pv * (f1 * f2 * f3 * f4)"
      unfolding quot f4 by (simp add: mult.assoc)
    have "\<bar>f1 * f2 - 1\<bar> \<le> 1 / 2 ^ 53 + 2 * (1 / 2 ^ 53)"
      using e1 e2 by (intro product_near_one) simp_all
    then have p2: "\<bar>f1 * f2 - 1\<bar> \<le> 3 / 2 ^ 53" by simp
    have "\<bar>f1 * f2 * f3 - 1\<bar> \<le> 3 / 2 ^ 53 + 2 * (1 / 2 ^ 53)"
      using p2 e3 by (intro product_near_one) simp_all
    then have p3: "\<bar>f1 * f2 * f3 - 1\<bar> \<le> 5 / 2 ^ 53" by simp
    have "\<bar>f1 * f2 * f3 * f4 - 1\<bar> \<le> 5 / 2 ^ 53 + 2 * (1 / 2 ^ 53)"
      using p3 e4 by (intro product_near_one) simp_all
    then have "\<bar>f1 * f2 * f3 * f4 - 1\<bar> \<le> 7 / 2 ^ 53" by simp
    then have "\<bar>fl (fl (m * d) / rate) - pv\<bar> \<le> pv / 10 ^ 6"
      unfolding res by (rule close)
    then show ?thesis
      using r0 q by (simp add: invert_pmt_float_def d_def)
  qed
qed

lemma fl_zero_iff: "fl x = 0 \<longleftrightarrow> x = 0"
proof
  assume z: "fl x = 0"
  have "\<bar>x\<bar> \<le> \<bar>x\<bar> / 2 ^ 53" using fl_error [of x] z by simp
  then have "\<bar>x\<bar> * 2 ^ 53 \<le> \<bar>x\<bar>" by (simp add: field_simps)
  then have "\<bar>x\<bar> \<le> 0" by simp
  then show "x = 0" by simp
next
  assume "x = 0"
  then show "fl x = 0" by (simp add: fl_zero)
qed

lemma fl_bounds:
  assumes "0 \<le> x"
  shows "x * (1 - 1 / 2 ^ 53) \<le> fl x \<and> fl x \<le> x * (1 + 1 / 2 ^ 53)"
proof -
  define y where "y = x / 2 ^ 53"
  have "\<bar>fl x - x\<bar> \<le> y" using fl_error [of x] assms by (simp add: y_def)
  then have "x - y \<le> fl x \<and> fl x \<le> x + y" by linarith
  moreover have "x * (1 - 1 / 2 ^ 53) = x - y" "x * (1 + 1 / 2 ^ 53) = x + y"
    by (simp_all add: y_def algebra_simps)
  ultimately show ?thesis by simp
qed

lemma pmt_float_returns:
  assumes rate: "2 powi (- 51) \<le> rate" and nper: "1 \<le> nper"
  shows "\<exists>m. pmt_float rate nper pv = Inr m"
proof -
  define b where "b = fl (1 + rate)"
  define x where "x = b powi (- nper)"
  have r51: "1 / 2 ^ 51 \<le> rate" using rate by simp
  then have r0: "rate \<noteq> 0" and r1: "0 \<le> 1 + rate" by simp_all
  have "(1 + 1 / 2 ^ 51) * (1 - 1 / 2 ^ 53) \<le> (1 + rate) * (1 - 1 / 2 ^ 53)"
    using r51 by (intro mult_right_mono) simp_all
  moreover have "(1 + rate) * (1 - 1 / 2 ^ 53) \<le> b"
    using fl_bounds [OF r1] by (simp add: b_def)
  moreover have "(1::real) + 1 / 2 ^ 52 \<le> (1 + 1 / 2 ^ 51) * (1 - 1 / 2 ^ 53)" by simp
  ultimately have b: "1 + 1 / 2 ^ 52 \<le> b" by linarith
  then have b1: "1 \<le> b" and b0: "b \<noteq> 0" by simp_all
  have "b \<le> b ^ nat nper"
    using b1 nper by (intro self_le_power) simp_all
  then have bn: "1 + 1 / 2 ^ 52 \<le> b ^ nat nper" using b by linarith
  have xv: "x = 1 / b ^ nat nper"
    using nper by (simp add: x_def power_int_minus power_int_def inverse_eq_divide power_one_over)
  have x0: "0 \<le> x" using b1 by (simp add: xv)
  have "x \<le> 1 / (1 + 1 / 2 ^ 52)"
    unfolding xv using bn by (intro divide_left_mono) simp_all
  then have "x * (1 + 1 / 2 ^ 53) \<le> 1 / (1 + 1 / 2 ^ 52) * (1 + 1 / 2 ^ 53)"
    by (intro mult_right_mono) simp_all
  moreover have "fl x \<le> x * (1 + 1 / 2 ^ 53)" using fl_bounds [OF x0] by simp
  moreover have "(1::real) / (1 + 1 / 2 ^ 52) * (1 + 1 / 2 ^ 53) < 1" by simp
  ultimately have "fl x < 1" by linarith
  then have "1 - fl x \<noteq> 0" by simp
  then have d: "fl (1 - fl x) \<noteq> 0" by (simp add: fl_zero_iff)
  have "float_pow b (- nper) = Inr (fl x)"
    using b0 by (simp add: float_pow_def x_def)
  then show ?thesis
    using r0 d by (simp add: pmt_float_def b_def [symmetric] float_div_def)
qed

lemma pmt_float_zero_rate:
  assumes "1 \<le> nper"
  shows "pmt_float 0 nper pv = Inr (fl (pv / of_int nper))"
  using assms by (simp add: pmt_float_def float_div_def)

text \<open>
  C2, as stated, fails in floating point. The rate \<open>2^-60\<close> is positive, but added to
  1 it rounds to 1.0, the power of 1.0 is 1.0, and the payment formula divides by
  \<open>1 - 1.0\<close>: \<open>pmt\<close> raises \<open>ZeroDivisionError\<close> and there is no payment to invert.
\<close>

theorem pmt_float_tiny_rate_counterexample:
  "(0::real) \<le> 2 powi (- 60) \<and> (1::int) \<le> 2 \<and> (0::real) < 1000
   \<and> pmt_float (2 powi (- 60)) 2 1000 = Inl ZeroDivisionError"
proof -
  have "(2::real) powi (- 60) \<noteq> 0" by simp
  then have "pmt_float (2 powi (- 60)) 2 1000 = Inl ZeroDivisionError"
    using fl_tiny_sum by (rule pmt_float_tiny_rate)
  then show ?thesis by simp
qed

text \<open>
  C2, as amended. For every rate at least 0, at least one period and a positive
  principal: over exact arithmetic the payment is computed without fault and the loan
  amount computed back from it is the principal, and at rate 0 the payment is the
  principal divided by the periods and the loan amount is the payment times the
  periods. In floating point (doubles rounded to nearest, overflow and underflow
  aside), at rate 0 and at every rate of at least \<open>2^-51\<close> the payment is computed
  without fault and the loan amount computed back from it is within \<open>10^-6\<close> of the
  principal, relatively; at a rate that is not 0 but so small that 1 plus the rate
  rounds to 1.0 the payment is not computed: \<open>pmt\<close> raises \<open>ZeroDivisionError\<close>.
\<close>

theorem pmt_invert_roundtrip:
  assumes "0 \<le> rate" "1 \<le> nper" "0 < pv"
  shows "(\<exists>m. pmt rate nper pv = Inr m \<and> invert_pmt m rate nper = Inr pv)
         \<and> pmt 0 nper pv = Inr (pv / of_int nper)
         \<and> invert_pmt (pv / of_int nper) 0 nper = Inr (pv / of_int nper * of_int nper)
         \<and> (rate = 0 \<or> 2 powi (- 51) \<le> rate \<longrightarrow>
              (\<exists>m loan. pmt_float rate nper pv = Inr m
                 \<and> invert_pmt_float m rate nper = Inr loan
                 \<and> \<bar>loan - pv\<bar> \<le> pv / 10 ^ 6))
         \<and> (rate \<noteq> 0 \<and> fl (1 + rate) = 1 \<longrightarrow>
              pmt_float rate nper pv = Inl ZeroDivisionError)"
proof -
  have exact: "(\<exists>m. pmt rate nper pv = Inr m \<and> invert_pmt m rate nper = Inr pv)
         \<and> pmt 0 nper pv = Inr (pv / of_int nper)
         \<and> invert_pmt (pv / of_int nper) 0 nper = Inr (pv / of_int nper * of_int nper)"
    using assms pmt_roundtrip [of rate nper pv]
    by (simp add: pmt_zero_rate invert_pmt_zero_rate)
  have returns: "\<exists>m. pmt_float rate nper pv = Inr m"
    if "rate = 0 \<or> 2 powi (- 51) \<le> rate"
    using that pmt_float_zero_rate [OF assms(2), of pv] pmt_float_returns [OF _ assms(2), of rate pv]
    by auto
  have float: "\<exists>m loan. pmt_float rate nper pv = Inr m
                 \<and> invert_pmt_float m rate nper = Inr loan
                 \<and> \<bar>loan - pv\<bar> \<le> pv / 10 ^ 6"
    if range: "rate = 0 \<or> 2 powi (- 51) \<le> rate"
  proof -
    obtain m where m: "pmt_float rate nper pv = Inr m" using returns [OF range] by blast
    then show ?thesis using float_roundtrip [OF assms m] by blast
  qed
  have tiny: "pmt_float rate nper pv = Inl ZeroDivisionError"
    if "rate \<noteq> 0 \<and> fl (1 + rate) = 1"
    using that by (intro pmt_float_tiny_rate) simp_all
  show ?thesis using exact float tiny by blast
qed

theorem pmt_invert_roundtrip_witness:
  "pmt 1 2 300 = Inr 400 \<and> invert_pmt 400 1 2 = Inr 300
   \<and> pmt 0 2 300 = Inr 150 \<and> invert_pmt 150 0 2 = Inr 300
   \<and> pmt_float 1 2 300 = Inr 400 \<and> invert_pmt_float 400 1 2 = Inr 300
   \<and> pmt_float (2 powi (- 60)) 2 300 = Inl ZeroDivisionError"
proof -
  have p: "pmt 1 2 300 = Inr 400"
    by (simp add: pmt_def py_pow_def py_div_def)
  have a: "(0::real) \<le> 1" "(1::int) \<le> 2" "(0::real) < 300" by simp_all
  have b: "(0::real) \<le> 2 powi (- 60)" "(1::int) \<le> 2" "(0::real) < 300" by simp_all
  have t: "(2::real) powi (- 60) \<noteq> 0" by simp
  show ?thesis
    using pmt_invert_roundtrip [OF a] pmt_invert_roundtrip [OF b] p float_example
      fl_tiny_sum t
    by simp
qed



section \<open>Properties of the core calculations\<close>

lemma widget_bounds_costs_ok:
  assumes "widget_bounds inp"
  shows "costs_ok inp"
  using assms by (auto simp add: widget_bounds_def costs_ok_def)

lemma pmt_level:
  assumes "0 < r" "0 < n"
  shows "pmt r n pv = Inr (level_payment r n pv)"
  using assms by (simp add: pmt_pos_rate level_payment_def)

lemma level_payment_lower:
  assumes "0 < r" "0 < n" "0 \<le> pv"
  shows "r * pv \<le> level_payment r n pv"
proof -
  have q1: "(1 + r) powi (- n) < 1" using assms(1,2) by (rule discount_lt_one)
  have q0: "0 < (1 + r) powi (- n)" using assms(1) by (intro discount_pos) simp
  have "r * pv * (1 - (1 + r) powi (- n)) \<le> r * pv * 1"
    using assms q0 by (intro mult_left_mono) simp_all
  then show ?thesis
    using q1 by (simp add: level_payment_def field_simps)
qed

lemma level_payment_pos:
  assumes "0 < r" "0 < n" "0 < pv"
  shows "0 < level_payment r n pv"
proof -
  have "0 < r * pv" using assms by simp
  also have "r * pv \<le> level_payment r n pv"
    using assms by (intro level_payment_lower) simp_all
  finally show ?thesis .
qed

lemma payment_at_lower:
  assumes ok: "costs_ok inp" and p: "down_payment_amount inp < price"
  shows "hoa_fees inp < payment_at inp price"
proof -
  have r: "0 < interest_rate inp / 100 / 12" and n: "0 < loan_term inp * 12"
    using ok by (simp_all add: costs_ok_def)
  have loan: "0 < price - down_payment_amount inp" using p by simp
  have price: "0 < price" using ok p by (simp add: costs_ok_def)
  have a: "0 < level_payment (interest_rate inp / 100 / 12) (loan_term inp * 12)
                 (price - down_payment_amount inp)"
    using r n loan by (rule level_payment_pos)
  have b: "0 \<le> price * property_tax_rate inp / 100 / 12"
    using ok price by (simp add: costs_ok_def)
  have c: "0 \<le> home_insurance inp / 12"
    using ok by (simp add: costs_ok_def)
  have d: "0 \<le> (if down_payment_amount inp / price < 0.20
                 then (price - down_payment_amount inp) * pmi_rate inp / 100 / 12 else 0)"
    using ok loan by (simp add: costs_ok_def)
  show ?thesis
    unfolding payment_at_def using a b c d by linarith
qed

lemma payment_at_pos:
  assumes "costs_ok inp" "down_payment_amount inp < price"
  shows "0 < payment_at inp price"
  using payment_at_lower [OF assms] assms(1) by (simp add: costs_ok_def)

lemma iteration_step_low:
  assumes "price \<le> down_payment_amount inp"
  shows "price_iteration inp target (Suc k) price =
           tick (price_iteration inp target k (down_payment_amount inp * 2))"
  using assms by (simp add: Let_def)

lemma iteration_step:
  assumes ok: "costs_ok inp" and p: "down_payment_amount inp < price"
  shows "price_iteration inp target (Suc k) price =
           (if \<bar>payment_at inp price - target\<bar> < 10
            then Inr \<lparr>estimated_price = price, iterations = 1, within_tolerance = True\<rparr>
            else tick (price_iteration inp target k
                         (price * (target / payment_at inp price))))"
proof -
  have r: "0 < interest_rate inp / 100 / 12" and n: "0 < loan_term inp * 12"
    using ok by (simp_all add: costs_ok_def)
  have pm: "pmt (interest_rate inp / 100 / 12) (loan_term inp * 12)
              (price - down_payment_amount inp)
            = Inr (level_payment (interest_rate inp / 100 / 12) (loan_term inp * 12)
                     (price - down_payment_amount inp))"
    using r n by (rule pmt_level)
  have p0: "price \<noteq> 0" using ok p by (auto simp add: costs_ok_def)
  have dv: "py_div (down_payment_amount inp) price = Inr (down_payment_amount inp / price)"
    using p0 by (simp add: py_div_def)
  have tot: "payment_at inp price \<noteq> 0"
    using payment_at_pos [OF ok p] by simp
  have rt: "py_div target (payment_at inp price) = Inr (target / payment_at inp price)"
    using tot by (simp add: py_div_def)
  have lo: "\<not> price - down_payment_amount inp \<le> 0" using p by simp
  show ?thesis
    by (simp only: price_iteration.simps Let_def pm dv sum.case lo if_False
          payment_at_def [symmetric] rt)
qed

lemma tick_Inr:
  "tick (Inr st) = Inr (st\<lparr>iterations := Suc (iterations st)\<rparr>)"
  by (simp add: tick_def)

lemma iteration_returns:
  assumes ok: "costs_ok inp"
  shows "\<exists>st. price_iteration inp target k price = Inr st
              \<and> iterations st \<le> k
              \<and> (within_tolerance st \<longrightarrow>
                   down_payment_amount inp < estimated_price st
                   \<and> \<bar>payment_at inp (estimated_price st) - target\<bar> < 10)"
proof (induction k arbitrary: price)
  case 0
  show ?case by simp
next
  case (Suc k)
  show ?case
  proof (cases "price \<le> down_payment_amount inp")
    case True
    obtain st where st: "price_iteration inp target k (down_payment_amount inp * 2) = Inr st"
      and it: "iterations st \<le> k"
      and tol: "within_tolerance st \<longrightarrow>
                  down_payment_amount inp < estimated_price st
                  \<and> \<bar>payment_at inp (estimated_price st) - target\<bar> < 10"
      using Suc.IH [of "down_payment_amount inp * 2"] by blast
    show ?thesis
      unfolding iteration_step_low [OF True] st tick_Inr using it tol by simp
  next
    case False
    then have p: "down_payment_amount inp < price" by simp
    show ?thesis
    proof (cases "\<bar>payment_at inp price - target\<bar> < 10")
      case True
      then show ?thesis
        unfolding iteration_step [OF ok p] using p by simp
    next
      case far: False
      obtain st where st: "price_iteration inp target k
                             (price * (target / payment_at inp price)) = Inr st"
        and it: "iterations st \<le> k"
        and tol: "within_tolerance st \<longrightarrow>
                    down_payment_amount inp < estimated_price st
                    \<and> \<bar>payment_at inp (estimated_price st) - target\<bar> < 10"
        using Suc.IH [of "price * (target / payment_at inp price)"] by blast
      show ?thesis
        unfolding iteration_step [OF ok p] using far st it tol by (simp add: tick_Inr)
    qed
  qed
qed

lemma max_mode_result:
  assumes ok: "costs_ok inp" and inc: "annual_income inp \<noteq> 0"
    and st: "price_iteration inp (max_payment_constraint inp) 10 400000 = Inr st"
  shows "max_affordability_mode inp =
           Inr \<lparr>final_home_price = max (estimated_price st) (down_payment_amount inp + 1000),
                max_affordable_price = max (estimated_price st) (down_payment_amount inp + 1000),
                loan_amount = max (estimated_price st) (down_payment_amount inp + 1000)
                              - down_payment_amount inp,
                monthly_pi = level_payment (interest_rate inp / 100 / 12) (loan_term inp * 12)
                               (max (estimated_price st) (down_payment_amount inp + 1000)
                                - down_payment_amount inp),
                monthly_tax = max (estimated_price st) (down_payment_amount inp + 1000)
                              * property_tax_rate inp / 100 / 12,
                monthly_insurance = home_insurance inp / 12,
                monthly_hoa = hoa_fees inp,
                monthly_pmi =
                  (if down_payment_amount inp
                      / max (estimated_price st) (down_payment_amount inp + 1000) < 0.20
                   then (max (estimated_price st) (down_payment_amount inp + 1000)
                         - down_payment_amount inp) * pmi_rate inp / 100 / 12
                   else 0),
                total_monthly_payment =
                  payment_at inp (max (estimated_price st) (down_payment_amount inp + 1000)),
                front_end_dti =
                  payment_at inp (max (estimated_price st) (down_payment_amount inp + 1000))
                  / (annual_income inp / 12),
                back_end_dti =
                  (payment_at inp (max (estimated_price st) (down_payment_amount inp + 1000))
                   + existing_debt inp) / (annual_income inp / 12),
                ltv = (max (estimated_price st) (down_payment_amount inp + 1000)
                       - down_payment_amount inp)
                      / max (estimated_price st) (down_payment_amount inp + 1000)\<rparr>"
proof -
  let ?P = "max (estimated_price st) (down_payment_amount inp + 1000)"
  have r: "0 < interest_rate inp / 100 / 12" and n: "0 < loan_term inp * 12"
    using ok by (simp_all add: costs_ok_def)
  have pm: "pmt (interest_rate inp / 100 / 12) (loan_term inp * 12)
              (?P - down_payment_amount inp)
            = Inr (level_payment (interest_rate inp / 100 / 12) (loan_term inp * 12)
                     (?P - down_payment_amount inp))"
    using r n by (rule pmt_level)
  have p0: "?P \<noteq> 0" using ok by (auto simp add: costs_ok_def max_def)
  have dv: "py_div (down_payment_amount inp) ?P = Inr (down_payment_amount inp / ?P)"
    using p0 by (simp only: py_div_def if_False)
  have m0: "annual_income inp / 12 \<noteq> 0" using inc by simp
  have m1: "py_div x (annual_income inp / 12) = Inr (x / (annual_income inp / 12))" for x
    using m0 by (simp only: py_div_def if_False)
  have m2: "py_div x ?P = Inr (x / ?P)" for x
    using p0 by (simp only: py_div_def if_False)
  show ?thesis
    by (simp only: max_affordability_mode_def Let_def st sum.case pm dv m1 m2
          payment_at_def [symmetric])
qed

lemma priced_mode_invalid:
  assumes "price \<le> down_payment_amount inp"
  shows "priced_mode inp price = Inl InvalidInput"
  using assms by (simp add: priced_mode_def Let_def)

lemma priced_mode_Inr:
  assumes "priced_mode inp price = Inr c"
  shows "down_payment_amount inp < price
         \<and> annual_income inp \<noteq> 0
         \<and> loan_amount c = price - down_payment_amount inp
         \<and> monthly_pmi c =
             (if down_payment_percent inp < 20
              then (price - down_payment_amount inp) * pmi_rate inp / 100 / 12 else 0)"
proof -
  have valid: "down_payment_amount inp < price"
    using assms priced_mode_invalid [of price inp] by (cases "price \<le> down_payment_amount inp") auto
  then have lo: "\<not> price \<le> down_payment_amount inp" by simp
  have inc: "annual_income inp \<noteq> 0"
    using assms lo
    by (auto simp add: priced_mode_def Let_def py_div_def split: sum.splits)
  show ?thesis
    using assms lo inc
    by (auto simp add: priced_mode_def Let_def py_div_def split: sum.splits if_splits)
qed

lemma priced_mode_zero_income:
  assumes r0: "0 < interest_rate inp" and n0: "0 < loan_term inp"
    and p: "down_payment_amount inp < price"
    and inc: "annual_income inp = 0"
  shows "priced_mode inp price = Inl ZeroDivisionError"
proof -
  have r: "0 < interest_rate inp / 100 / 12" and n: "0 < loan_term inp * 12"
    using r0 n0 by simp_all
  have pm: "pmt (interest_rate inp / 100 / 12) (loan_term inp * 12)
              (price - down_payment_amount inp)
            = Inr (level_payment (interest_rate inp / 100 / 12) (loan_term inp * 12)
                     (price - down_payment_amount inp))"
    using r n by (rule pmt_level)
  have lo: "\<not> price \<le> down_payment_amount inp" using p by simp
  have m1: "py_div x (annual_income inp / 12) = Inl ZeroDivisionError" for x
    using inc by (simp add: py_div_def)
  show ?thesis
    by (simp only: priced_mode_def Let_def pm lo m1 sum.case if_False)
qed

lemma priced_mode_result:
  assumes r0: "0 < interest_rate inp" and n0: "0 < loan_term inp"
    and p: "down_payment_amount inp < price"
    and inc: "annual_income inp \<noteq> 0" and p0: "price \<noteq> 0"
  shows "priced_mode inp price =
           Inr \<lparr>final_home_price = price,
                max_affordable_price = price,
                loan_amount = price - down_payment_amount inp,
                monthly_pi = level_payment (interest_rate inp / 100 / 12) (loan_term inp * 12)
                               (price - down_payment_amount inp),
                monthly_tax = price * property_tax_rate inp / 100 / 12,
                monthly_insurance = home_insurance inp / 12,
                monthly_hoa = hoa_fees inp,
                monthly_pmi =
                  (if down_payment_percent inp < 20
                   then (price - down_payment_amount inp) * pmi_rate inp / 100 / 12 else 0),
                total_monthly_payment =
                  level_payment (interest_rate inp / 100 / 12) (loan_term inp * 12)
                    (price - down_payment_amount inp)
                  + price * property_tax_rate inp / 100 / 12
                  + home_insurance inp / 12
                  + hoa_fees inp
                  + (if down_payment_percent inp < 20
                     then (price - down_payment_amount inp) * pmi_rate inp / 100 / 12 else 0),
                front_end_dti =
                  (level_payment (interest_rate inp / 100 / 12) (loan_term inp * 12)
                     (price - down_payment_amount inp)
                   + price * property_tax_rate inp / 100 / 12
                   + home_insurance inp / 12
                   + hoa_fees inp
                   + (if down_payment_percent inp < 20
                      then (price - down_payment_amount inp) * pmi_rate inp / 100 / 12 else 0))
                  / (annual_income inp / 12),
                back_end_dti =
                  (level_payment (interest_rate inp / 100 / 12) (loan_term inp * 12)
                     (price - down_payment_amount inp)
                   + price * property_tax_rate inp / 100 / 12
                   + home_insurance inp / 12
                   + hoa_fees inp
                   + (if down_payment_percent inp < 20
                      then (price - down_payment_amount inp) * pmi_rate inp / 100 / 12 else 0)
                   + existing_debt inp)
                  / (annual_income inp / 12),
                ltv = (price - down_payment_amount inp) / price\<rparr>"
proof -
  have r: "0 < interest_rate inp / 100 / 12" and n: "0 < loan_term inp * 12"
    using r0 n0 by simp_all
  have pm: "pmt (interest_rate inp / 100 / 12) (loan_term inp * 12)
              (price - down_payment_amount inp)
            = Inr (level_payment (interest_rate inp / 100 / 12) (loan_term inp * 12)
                     (price - down_payment_amount inp))"
    using r n by (rule pmt_level)
  have lo: "\<not> price \<le> down_payment_amount inp" using p by simp
  have m0: "annual_income inp / 12 \<noteq> 0" using inc by simp
  have m1: "py_div x (annual_income inp / 12) = Inr (x / (annual_income inp / 12))" for x
    using m0 by (simp only: py_div_def if_False)
  have m2: "py_div x price = Inr (x / price)" for x
    using p0 by (simp only: py_div_def if_False)
  show ?thesis
    by (simp only: priced_mode_def Let_def pm lo if_False sum.case m1 m2)
qed

lemma core_priced:
  assumes "home_price inp = Some price" "price_mode inp = ''Set Home Price''" "price \<noteq> 0"
  shows "core_calculations inp = priced_mode inp price"
  using assms by (simp add: core_calculations_def)

lemma core_max:
  assumes "home_price inp = None"
  shows "core_calculations inp = max_affordability_mode inp"
  using assms by (simp add: core_calculations_def)

lemma max_mode_returns:
  assumes ok: "costs_ok inp" and inc: "annual_income inp \<noteq> 0"
  shows "\<exists>c. max_affordability_mode inp = Inr c"
proof -
  obtain st where "price_iteration inp (max_payment_constraint inp) 10 400000 = Inr st"
    using iteration_returns [OF ok] by blast
  then show ?thesis
    using max_mode_result [OF ok inc] by blast
qed

lemma core_no_division_fault:
  assumes wb: "widget_bounds inp"
  shows "core_calculations inp \<noteq> Inl ZeroDivisionError"
proof (cases "home_price inp")
  case None
  have ok: "costs_ok inp" using wb by (rule widget_bounds_costs_ok)
  have inc: "annual_income inp \<noteq> 0" using wb by (auto simp add: widget_bounds_def)
  show ?thesis
    using max_mode_returns [OF ok inc] core_max [OF None] by auto
next
  case (Some price)
  have mode: "price_mode inp = ''Set Home Price''" and p0: "price \<noteq> 0"
    using wb Some by (auto simp add: widget_bounds_def)
  have r0: "0 < interest_rate inp" and n0: "0 < loan_term inp"
    and inc: "annual_income inp \<noteq> 0"
    using wb by (auto simp add: widget_bounds_def)
  show ?thesis
  proof (cases "price \<le> down_payment_amount inp")
    case True
    then show ?thesis
      using core_priced [OF Some mode p0] priced_mode_invalid [of price inp] by simp
  next
    case False
    then have "down_payment_amount inp < price" by simp
    then show ?thesis
      using core_priced [OF Some mode p0] priced_mode_result [OF r0 n0 _ inc p0] by simp
  qed
qed

lemma save_scenario_length:
  assumes "length scenarios \<le> 2"
  shows "length (save_scenario now inp scenarios) \<le> 2"
  using assms by (simp add: save_scenario_def Let_def)

lemma update_scenario_length:
  "length (update_scenario c scenarios) = length scenarios"
  by (simp add: update_scenario_def)

lemma script_run_length:
  assumes "length scenarios \<le> 2"
  shows "length (script_run save_clicked now inp scenarios) \<le> 2"
  using assms save_scenario_length [of scenarios now inp]
  by (simp add: script_run_def Let_def update_scenario_length split: sum.splits)

lemma run_all_length:
  assumes "length scenarios \<le> 2"
  shows "length (run_all scenarios runs) \<le> 2"
  using assms
proof (induction runs arbitrary: scenarios)
  case Nil
  then show ?case by simp
next
  case (Cons run later)
  obtain save_clicked now inp where run: "run = (save_clicked, now, inp)"
    by (cases run) auto
  show ?case
    unfolding run run_all.simps
    using script_run_length [OF Cons.prems] by (rule Cons.IH)
qed

section \<open>The claims about the core calculations\<close>

lemma max_mode_fields:
  assumes ok: "costs_ok inp" and inc: "annual_income inp \<noteq> 0"
    and st: "price_iteration inp (max_payment_constraint inp) 10 400000 = Inr st"
  shows "\<exists>c. max_affordability_mode inp = Inr c
             \<and> final_home_price c = max (estimated_price st) (down_payment_amount inp + 1000)
             \<and> loan_amount c = max (estimated_price st) (down_payment_amount inp + 1000)
                               - down_payment_amount inp
             \<and> total_monthly_payment c
                 = payment_at inp (max (estimated_price st) (down_payment_amount inp + 1000))"
  unfolding max_mode_result [OF ok inc st] by simp

lemma default_max_costs_ok:
  "costs_ok default_max_inputs \<and> costs_ok high_hoa_inputs \<and> costs_ok converging_inputs"
  by (simp add: costs_ok_def default_max_inputs_def high_hoa_inputs_def
        converging_inputs_def default_inputs_def)

text \<open>
  C1, as stated, fails. With the default widget values, a down payment of 60000 and
  HOA fees of 3000 a month, the target payment is 5600/3 (about 1866.67), while the
  payment at any price the solver can return includes the 3000 of HOA fees.
\<close>

theorem price_solver_target_counterexample:
  "down_payment_amount high_hoa_inputs < 400000
   \<and> 0 < interest_rate high_hoa_inputs
   \<and> \<not> isl (max_affordability_mode high_hoa_inputs)
   \<and> max_payment_constraint high_hoa_inputs + 10
       < total_monthly_payment (projr (max_affordability_mode high_hoa_inputs))"
proof -
  have ok: "costs_ok high_hoa_inputs" using default_max_costs_ok by simp
  have inc: "annual_income high_hoa_inputs \<noteq> 0"
    by (simp add: high_hoa_inputs_def default_max_inputs_def default_inputs_def)
  obtain st where st: "price_iteration high_hoa_inputs
                         (max_payment_constraint high_hoa_inputs) 10 400000 = Inr st"
    using iteration_returns [OF ok] by blast
  let ?P = "max (estimated_price st) (down_payment_amount high_hoa_inputs + 1000)"
  have "down_payment_amount high_hoa_inputs < ?P" by simp
  then have "hoa_fees high_hoa_inputs < payment_at high_hoa_inputs ?P"
    using ok by (intro payment_at_lower)
  moreover have "hoa_fees high_hoa_inputs = 3000"
    by (simp add: high_hoa_inputs_def)
  moreover have "max_payment_constraint high_hoa_inputs = 5600 / 3"
    by (simp add: max_payment_constraint_def high_hoa_inputs_def default_max_inputs_def
          default_inputs_def)
  moreover have "down_payment_amount high_hoa_inputs = 60000"
    "interest_rate high_hoa_inputs = 6.5"
    by (simp_all add: high_hoa_inputs_def default_max_inputs_def default_inputs_def)
  ultimately show ?thesis
    unfolding max_mode_result [OF ok inc st] by simp
qed

text \<open>
  C1, as amended. For every input within the widget bounds the price loop returns
  after at most 10 iterations, and the branch returns a result whose price is the
  larger of the loop's estimate and the down payment plus 1000, so that the loan is at
  least 1000. When the loop stopped through its tolerance test and that estimate is at
  least the down payment plus 1000, the total monthly payment of the result is within
  10 of the target payment. Nothing is promised about the payment otherwise.
\<close>

theorem price_solver_bounded:
  assumes wb: "widget_bounds inp"
  shows "\<exists>st c. price_iteration inp (max_payment_constraint inp) 10 400000 = Inr st
           \<and> iterations st \<le> 10
           \<and> max_affordability_mode inp = Inr c
           \<and> final_home_price c = max (estimated_price st) (down_payment_amount inp + 1000)
           \<and> 1000 \<le> loan_amount c
           \<and> (within_tolerance st \<and> down_payment_amount inp + 1000 \<le> estimated_price st
                \<longrightarrow> \<bar>total_monthly_payment c - max_payment_constraint inp\<bar> < 10)"
proof -
  have ok: "costs_ok inp" using wb by (rule widget_bounds_costs_ok)
  have inc: "annual_income inp \<noteq> 0" using wb by (auto simp add: widget_bounds_def)
  obtain st where st: "price_iteration inp (max_payment_constraint inp) 10 400000 = Inr st"
    and it: "iterations st \<le> 10"
    and tol: "within_tolerance st \<longrightarrow>
                \<bar>payment_at inp (estimated_price st) - max_payment_constraint inp\<bar> < 10"
    using iteration_returns [OF ok, of "max_payment_constraint inp" 10 400000] by blast
  obtain c where c: "max_affordability_mode inp = Inr c"
    and price: "final_home_price c
                = max (estimated_price st) (down_payment_amount inp + 1000)"
    and loan: "loan_amount c
               = max (estimated_price st) (down_payment_amount inp + 1000)
                 - down_payment_amount inp"
    and total: "total_monthly_payment c
                = payment_at inp (max (estimated_price st) (down_payment_amount inp + 1000))"
    using max_mode_fields [OF ok inc st] by blast
  have l: "1000 \<le> loan_amount c" unfolding loan by simp
  have t: "\<bar>total_monthly_payment c - max_payment_constraint inp\<bar> < 10"
    if "within_tolerance st \<and> down_payment_amount inp + 1000 \<le> estimated_price st"
  proof -
    have "max (estimated_price st) (down_payment_amount inp + 1000) = estimated_price st"
      using that by simp
    then show ?thesis using that tol unfolding total by simp
  qed
  show ?thesis
    using st it c price l t by blast
qed

lemma quotient_bounds:
  fixes q :: real
  assumes "1667 / 10000 < q" "q < 1668 / 10000"
  shows "3600 < 3000 / (1 - q) \<and> 3000 / (1 - q) < 3601"
  using assms by (simp add: field_simps)

lemma converging_payment:
  "\<bar>payment_at converging_inputs 400000 - max_payment_constraint converging_inputs\<bar> < 10"
proof -
  have q1: "1667 / 10000 < (101 / 100 :: real) powi (- 180)"
    by (simp add: power_int_minus power_divide field_simps)
  have q2: "(101 / 100 :: real) powi (- 180) < 1668 / 10000"
    by (simp add: power_int_minus power_divide field_simps)
  have lo: "3600 < 3000 / (1 - (101 / 100 :: real) powi (- 180))"
    and hi: "3000 / (1 - (101 / 100 :: real) powi (- 180)) < 3601"
    using quotient_bounds [OF q1 q2] by simp_all
  have pay: "payment_at converging_inputs 400000
             = 3000 / (1 - (101 / 100 :: real) powi (- 180)) + 500"
    unfolding payment_at_def
    by (simp add: converging_inputs_def default_max_inputs_def default_inputs_def
          level_payment_def)
  have tgt: "max_payment_constraint converging_inputs = 175714 / 12 * 28 / 100"
    by (simp add: max_payment_constraint_def converging_inputs_def default_max_inputs_def
          default_inputs_def)
  show ?thesis
    unfolding pay tgt using lo hi by (simp add: abs_less_iff)
qed

lemma converging_loop:
  "price_iteration converging_inputs (max_payment_constraint converging_inputs) 10 400000
   = Inr \<lparr>estimated_price = 400000, iterations = 1, within_tolerance = True\<rparr>"
proof -
  have ok: "costs_ok converging_inputs" using default_max_costs_ok by simp
  have p: "down_payment_amount converging_inputs < 400000"
    by (simp add: converging_inputs_def)
  have ten: "(10::nat) = Suc 9" by simp
  show ?thesis
    unfolding ten iteration_step [OF ok p] using converging_payment by simp
qed

theorem price_solver_bounded_witness:
  "widget_bounds converging_inputs
   \<and> price_iteration converging_inputs (max_payment_constraint converging_inputs) 10 400000
       = Inr \<lparr>estimated_price = 400000, iterations = 1, within_tolerance = True\<rparr>
   \<and> \<not> isl (max_affordability_mode converging_inputs)
   \<and> final_home_price (projr (max_affordability_mode converging_inputs)) = 400000
   \<and> \<bar>total_monthly_payment (projr (max_affordability_mode converging_inputs))
       - max_payment_constraint converging_inputs\<bar> < 10"
proof -
  have wb: "widget_bounds converging_inputs"
    by (simp add: widget_bounds_def converging_inputs_def default_max_inputs_def
          default_inputs_def)
  have dp: "down_payment_amount converging_inputs = 100000"
    by (simp add: converging_inputs_def)
  from price_solver_bounded [OF wb] obtain st c
    where "price_iteration converging_inputs (max_payment_constraint converging_inputs)
             10 400000 = Inr st"
      and c: "max_affordability_mode converging_inputs = Inr c"
      and price: "final_home_price c
                  = max (estimated_price st) (down_payment_amount converging_inputs + 1000)"
      and tol: "within_tolerance st
                \<and> down_payment_amount converging_inputs + 1000 \<le> estimated_price st
                \<longrightarrow> \<bar>total_monthly_payment c - max_payment_constraint converging_inputs\<bar> < 10"
    by blast
  then have st: "st = \<lparr>estimated_price = 400000, iterations = 1, within_tolerance = True\<rparr>"
    using converging_loop by simp
  show ?thesis
    using wb converging_loop c price tol unfolding st dp by simp
qed

lemma default_priced:
  "home_price default_inputs = Some 400000
   \<and> price_mode default_inputs = ''Set Home Price''
   \<and> 0 < interest_rate default_inputs \<and> 0 < loan_term default_inputs
   \<and> annual_income default_inputs = 80000
   \<and> down_payment_amount default_inputs = 80000"
  by (simp add: default_inputs_def)

text \<open>
  C7. In the priced branch (mode \<^verbatim>\<open>Set Home Price\<close> with a price that is not zero) a
  down payment that is at least the home price stops the calculation with
  \<open>InvalidInput\<close>, and every result that the branch does return has a positive loan
  amount.
\<close>

theorem priced_mode_rejects_down_payment:
  assumes hp: "home_price inp = Some price"
    and mode: "price_mode inp = ''Set Home Price''"
    and p0: "price \<noteq> 0"
  shows "(price \<le> down_payment_amount inp \<longrightarrow> core_calculations inp = Inl InvalidInput)
         \<and> (\<forall>c. core_calculations inp = Inr c \<longrightarrow> 0 < loan_amount c)"
proof -
  have core: "core_calculations inp = priced_mode inp price"
    using hp mode p0 by (rule core_priced)
  have "priced_mode inp price = Inr c \<Longrightarrow> 0 < loan_amount c" for c
    using priced_mode_Inr [of inp price c] by simp
  then show ?thesis
    unfolding core using priced_mode_invalid [of price inp] by blast
qed

theorem priced_mode_rejects_down_payment_witness:
  "core_calculations (default_inputs\<lparr>down_payment_amount := 400000\<rparr>) = Inl InvalidInput
   \<and> core_calculations (default_inputs\<lparr>down_payment_amount := 450000\<rparr>) = Inl InvalidInput
   \<and> \<not> isl (core_calculations default_inputs)
   \<and> 0 < loan_amount (projr (core_calculations default_inputs))"
proof -
  have a: "core_calculations (default_inputs\<lparr>down_payment_amount := 400000\<rparr>)
           = Inl InvalidInput"
    using priced_mode_rejects_down_payment
            [of "default_inputs\<lparr>down_payment_amount := 400000\<rparr>" 400000]
    by (simp add: default_inputs_def)
  have b: "core_calculations (default_inputs\<lparr>down_payment_amount := 450000\<rparr>)
           = Inl InvalidInput"
    using priced_mode_rejects_down_payment
            [of "default_inputs\<lparr>down_payment_amount := 450000\<rparr>" 400000]
    by (simp add: default_inputs_def)
  have "\<exists>c. core_calculations default_inputs = Inr c"
    using core_priced [of default_inputs 400000]
      priced_mode_result [of default_inputs 400000] default_priced
    by simp
  then obtain c where c: "core_calculations default_inputs = Inr c" by blast
  then have "0 < loan_amount c"
    using priced_mode_rejects_down_payment [of default_inputs 400000] default_priced
    by simp
  then show ?thesis using a b c by simp
qed

text \<open>
  C8, as stated, fails: the DTI computations divide by the monthly income directly.
  With an annual income of zero and the other widgets at their defaults the core
  calculations end in \<open>ZeroDivisionError\<close>.
\<close>

theorem zero_income_counterexample:
  "core_calculations (default_inputs\<lparr>annual_income := 0\<rparr>) = Inl ZeroDivisionError"
proof -
  let ?inp = "default_inputs\<lparr>annual_income := 0\<rparr>"
  have "core_calculations ?inp = priced_mode ?inp 400000"
    by (intro core_priced) (simp_all add: default_inputs_def)
  also have "\<dots> = Inl ZeroDivisionError"
    by (intro priced_mode_zero_income) (simp_all add: default_inputs_def)
  finally show ?thesis .
qed

text \<open>
  C8, as amended. \<open>safe_divide\<close> returns the quotient for a divisor that is not zero
  and 0 for the divisor zero, but the core calculations do not call it. Their guard is
  the bounds of the widgets: for every input within them no division fault leaves the
  core calculations, while in the priced branch an income of zero, which the bounds
  exclude, ends in \<open>ZeroDivisionError\<close>.
\<close>

theorem division_guarded_by_widget_bounds:
  "safe_divide n d = (if d = 0 then 0 else n / d)
   \<and> (widget_bounds inp \<longrightarrow> core_calculations inp \<noteq> Inl ZeroDivisionError)
   \<and> (home_price inp = Some price \<and> price_mode inp = ''Set Home Price'' \<and> price \<noteq> 0
       \<and> down_payment_amount inp < price \<and> 0 < interest_rate inp \<and> 0 < loan_term inp
       \<and> annual_income inp = 0
       \<longrightarrow> core_calculations inp = Inl ZeroDivisionError)"
proof (intro conjI impI)
  show "safe_divide n d = (if d = 0 then 0 else n / d)"
    by (simp add: safe_divide_def)
next
  assume "widget_bounds inp"
  then show "core_calculations inp \<noteq> Inl ZeroDivisionError"
    by (rule core_no_division_fault)
next
  assume a: "home_price inp = Some price \<and> price_mode inp = ''Set Home Price'' \<and> price \<noteq> 0
       \<and> down_payment_amount inp < price \<and> 0 < interest_rate inp \<and> 0 < loan_term inp
       \<and> annual_income inp = 0"
  then have "core_calculations inp = priced_mode inp price"
    by (intro core_priced) simp_all
  also have "\<dots> = Inl ZeroDivisionError"
    using a by (intro priced_mode_zero_income) simp_all
  finally show "core_calculations inp = Inl ZeroDivisionError" .
qed

theorem division_guarded_by_widget_bounds_witness:
  "safe_divide 1 0 = 0 \<and> safe_divide 6 3 = 2
   \<and> widget_bounds default_inputs
   \<and> core_calculations default_inputs \<noteq> Inl ZeroDivisionError
   \<and> widget_bounds default_max_inputs
   \<and> core_calculations default_max_inputs \<noteq> Inl ZeroDivisionError
   \<and> core_calculations (default_inputs\<lparr>annual_income := 0, home_price := Some 1000,
                                          down_payment_amount := 0\<rparr>)
       = Inl ZeroDivisionError"
proof -
  have wb1: "widget_bounds default_inputs"
    by (simp add: widget_bounds_def default_inputs_def)
  have wb2: "widget_bounds default_max_inputs"
    by (simp add: widget_bounds_def default_max_inputs_def default_inputs_def)
  show ?thesis
    using wb1 wb2
      division_guarded_by_widget_bounds [of 1 0 default_inputs 400000]
      division_guarded_by_widget_bounds [of 6 3 default_max_inputs 400000]
      division_guarded_by_widget_bounds
        [of 1 1 "default_inputs\<lparr>annual_income := 0, home_price := Some 1000,
                                 down_payment_amount := 0\<rparr>" 1000]
    by (simp add: default_inputs_def)
qed

lemma priced_mode_fields:
  assumes r0: "0 < interest_rate inp" and n0: "0 < loan_term inp"
    and p: "down_payment_amount inp < price"
    and inc: "annual_income inp \<noteq> 0" and p0: "price \<noteq> 0"
  shows "\<exists>c. priced_mode inp price = Inr c
             \<and> loan_amount c = price - down_payment_amount inp
             \<and> monthly_pmi c =
                 (if down_payment_percent inp < 20
                  then (price - down_payment_amount inp) * pmi_rate inp / 100 / 12 else 0)
             \<and> ltv c = (price - down_payment_amount inp) / price"
  unfolding priced_mode_result [OF r0 n0 p inc p0] by simp

lemma example_fields:
  "home_price pmi_charged_inputs = Some 400000
   \<and> price_mode pmi_charged_inputs = ''Set Home Price''
   \<and> down_payment_amount pmi_charged_inputs = 100000
   \<and> down_payment_percent pmi_charged_inputs = 10
   \<and> interest_rate pmi_charged_inputs = 6.5 \<and> loan_term pmi_charged_inputs = 30
   \<and> annual_income pmi_charged_inputs = 80000 \<and> pmi_rate pmi_charged_inputs = 0.5
   \<and> home_price pmi_omitted_inputs = Some 400000
   \<and> price_mode pmi_omitted_inputs = ''Set Home Price''
   \<and> down_payment_amount pmi_omitted_inputs = 40000
   \<and> down_payment_percent pmi_omitted_inputs = 20
   \<and> interest_rate pmi_omitted_inputs = 6.5 \<and> loan_term pmi_omitted_inputs = 30
   \<and> annual_income pmi_omitted_inputs = 80000 \<and> pmi_rate pmi_omitted_inputs = 0.5"
  by (simp add: pmi_charged_inputs_def pmi_omitted_inputs_def default_inputs_def)

lemma pmi_charged_result:
  "\<exists>c. core_calculations pmi_charged_inputs = Inr c \<and> monthly_pmi c = 125"
proof -
  have "core_calculations pmi_charged_inputs = priced_mode pmi_charged_inputs 400000"
    using example_fields by (intro core_priced) simp_all
  then show ?thesis
    using priced_mode_fields [of pmi_charged_inputs 400000] example_fields by auto
qed

lemma pmi_omitted_result:
  "\<exists>c. core_calculations pmi_omitted_inputs = Inr c \<and> monthly_pmi c = 0 \<and> ltv c = 9 / 10"
proof -
  have "core_calculations pmi_omitted_inputs = priced_mode pmi_omitted_inputs 400000"
    using example_fields by (intro core_priced) simp_all
  then show ?thesis
    using priced_mode_fields [of pmi_omitted_inputs 400000] example_fields by auto
qed

text \<open>
  C10. In the priced branch the monthly PMI of a result is positive exactly when the
  down-payment-percent input is below 20 and the PMI rate is positive. The ratio of
  the down payment to the home price plays no part: PMI is charged on a down payment
  of a quarter of the price when the percent input says 10, and omitted on a down
  payment of a tenth of the price when the percent input says 20.
\<close>

theorem priced_pmi_gate:
  assumes hp: "home_price inp = Some price"
    and mode: "price_mode inp = ''Set Home Price''"
    and p0: "price \<noteq> 0"
    and res: "core_calculations inp = Inr c"
  shows "(0 < monthly_pmi c \<longleftrightarrow> down_payment_percent inp < 20 \<and> 0 < pmi_rate inp)
         \<and> down_payment_amount pmi_charged_inputs / 400000 = 1 / 4
         \<and> down_payment_percent pmi_charged_inputs = 10
         \<and> \<not> isl (core_calculations pmi_charged_inputs)
         \<and> 0 < monthly_pmi (projr (core_calculations pmi_charged_inputs))
         \<and> down_payment_amount pmi_omitted_inputs / 400000 = 1 / 10
         \<and> down_payment_percent pmi_omitted_inputs = 20
         \<and> 0 < pmi_rate pmi_omitted_inputs
         \<and> \<not> isl (core_calculations pmi_omitted_inputs)
         \<and> monthly_pmi (projr (core_calculations pmi_omitted_inputs)) = 0"
proof -
  have "priced_mode inp price = Inr c"
    using res core_priced [OF hp mode p0] by simp
  then have loan: "0 < price - down_payment_amount inp"
    and pmi: "monthly_pmi c =
                (if down_payment_percent inp < 20
                 then (price - down_payment_amount inp) * pmi_rate inp / 100 / 12 else 0)"
    using priced_mode_Inr [of inp price c] by simp_all
  have gate: "0 < monthly_pmi c \<longleftrightarrow> down_payment_percent inp < 20 \<and> 0 < pmi_rate inp"
    unfolding pmi using loan by (simp add: zero_less_mult_iff)
  obtain c1 where c1: "core_calculations pmi_charged_inputs = Inr c1" "monthly_pmi c1 = 125"
    using pmi_charged_result by blast
  obtain c2 where c2: "core_calculations pmi_omitted_inputs = Inr c2" "monthly_pmi c2 = 0"
    using pmi_omitted_result by blast
  show ?thesis
    using gate c1 c2 example_fields by simp
qed

theorem priced_pmi_gate_witness:
  "\<not> isl (core_calculations pmi_charged_inputs)
   \<and> 0 < monthly_pmi (projr (core_calculations pmi_charged_inputs))
   \<and> down_payment_percent pmi_charged_inputs < 20
   \<and> 0 < pmi_rate pmi_charged_inputs"
proof -
  obtain c1 where c1: "core_calculations pmi_charged_inputs = Inr c1"
    using pmi_charged_result by blast
  show ?thesis
    using priced_pmi_gate [of pmi_charged_inputs 400000 c1] c1 example_fields by simp
qed

section \<open>The claims about the scenario history\<close>

lemma scenario_history_capacity:
  "length (run_all [] runs) \<le> 2
   \<and> save_scenario now inp [older, newer] = [newer, new_scenario now inp]"
proof
  show "length (run_all [] runs) \<le> 2"
    by (rule run_all_length) simp
next
  show "save_scenario now inp [older, newer] = [newer, new_scenario now inp]"
    by (simp add: save_scenario_def Let_def)
qed

text \<open>
  C9. The list never holds more than 2 scenarios and a save on a full list drops the
  oldest, as the lemma above shows. The third part of the claim, that a stored
  scenario is changed by nothing but the save action, is not what the script does:
  the statement that fills in the entries marked \<^verbatim>\<open># Will be calculated\<close> runs on
  every run, not only on the run that saved. A scenario is saved on a run with the
  default inputs and stores the LTV 4/5; on the next run nothing is saved and the down
  payment is 40000 instead of 80000, and the stored LTV has become 9/10 while the
  stored down payment is still 80000.
\<close>

theorem stored_scenario_rewritten:
  "sc_ltv (last (script_run True ''12:00:00'' default_inputs [])) = Some (4 / 5)
   \<and> sc_ltv (last (script_run False ''12:05:00'' pmi_omitted_inputs
                      (script_run True ''12:00:00'' default_inputs []))) = Some (9 / 10)
   \<and> sc_down_payment_amount
        (last (script_run False ''12:05:00'' pmi_omitted_inputs
                 (script_run True ''12:00:00'' default_inputs []))) = 80000
   \<and> sc_timestamp
        (last (script_run False ''12:05:00'' pmi_omitted_inputs
                 (script_run True ''12:00:00'' default_inputs []))) = ''12:00:00''"
proof -
  have "core_calculations default_inputs = priced_mode default_inputs 400000"
    using default_priced by (intro core_priced) simp_all
  then obtain c1 where c1: "core_calculations default_inputs = Inr c1" "ltv c1 = 4 / 5"
    using priced_mode_fields [of default_inputs 400000] default_priced by auto
  obtain c2 where c2: "core_calculations pmi_omitted_inputs = Inr c2" "ltv c2 = 9 / 10"
    using pmi_omitted_result by blast
  have first: "script_run True ''12:00:00'' default_inputs []
               = [(new_scenario ''12:00:00'' default_inputs)
                    \<lparr>sc_monthly_payment := Some (total_monthly_payment c1),
                     sc_back_end_dti := Some (back_end_dti c1),
                     sc_ltv := Some (ltv c1)\<rparr>]"
    by (simp add: script_run_def c1 save_scenario_def update_scenario_def Let_def)
  show ?thesis
    unfolding first
    by (simp add: script_run_def c1 c2 update_scenario_def new_scenario_def default_priced)
qed

end
